theory Spec2Isabelle
  imports Complex_Main "HOL-Library.Multiset"
begin

section \<open>Particle averaging engine of picasso (gui/average3.py)\<close>

text \<open>
  The numerical core of \<^verbatim>\<open>picasso/gui/average3.py\<close>: rotation of localizations
  about a principal axis, histogram rendering of a projection, the group index, the
  per-group cross-correlation search with its writeback, recentring by centre of mass and
  the symmetrised reference images.

  Floating-point numbers are modelled as reals, numpy arrays as lists, Python exceptions
  as values of \<open>error\<close> on the left of a sum. \<open>NotANumber\<close> is no exception: it
  stands for a result that numpy computes as nan.
\<close>

datatype error = IndexError | ValueError | UnboundLocalError | NotANumber

subsection \<open>Rotation about a principal axis\<close>

text \<open>
  \<^verbatim>\<open>rotate_axis(axis, vx, vy, vz, angle, pixelsize)\<close>, lines 62 to 75. The three
  coordinate arrays are lists and the numpy expressions act elementwise on them. Arrays of
  different lengths make numpy raise ValueError (broadcasting of an array of length one
  is not modelled: the callers pass columns selected by one index). An axis other than
  \<^verbatim>\<open>'z'\<close>, \<^verbatim>\<open>'y'\<close>, \<^verbatim>\<open>'x'\<close> leaves the results unassigned and the
  \<^verbatim>\<open>return\<close> raises UnboundLocalError. With a pixelsize of zero numpy divides to
  inf or nan, which the reals do not have: statements about the division assume a nonzero
  pixelsize.
\<close>

definition rotate_axis ::
  "string \<Rightarrow> real list \<Rightarrow> real list \<Rightarrow> real list \<Rightarrow> real \<Rightarrow> real
     \<Rightarrow> error + (real list \<times> real list \<times> real list)" where
  "rotate_axis axis vx vy vz angle pixelsize =
     (if axis = ''z'' then
        if length vx \<noteq> length vy then Inl ValueError
        else Inr (map2 (\<lambda>x y. cos angle * x - sin angle * y) vx vy,
                  map2 (\<lambda>x y. sin angle * x + cos angle * y) vx vy,
                  vz)
      else if axis = ''y'' then
        if length vx \<noteq> length vz then Inl ValueError
        else Inr (map2 (\<lambda>x z. cos angle * x + sin angle * (z / pixelsize)) vx vz,
                  vy,
                  map2 (\<lambda>x z. - sin angle * x * pixelsize + cos angle * z) vx vz)
      else if axis = ''x'' then
        if length vy \<noteq> length vz then Inl ValueError
        else Inr (vx,
                  map2 (\<lambda>y z. cos angle * y - sin angle * (z / pixelsize)) vy vz,
                  map2 (\<lambda>y z. sin angle * y * pixelsize + cos angle * z) vy vz)
      else Inl UnboundLocalError)"

subsection \<open>numpy helpers\<close>

text \<open>
  \<^verbatim>\<open>np.unique\<close> returns the sorted distinct values of an array, and
  \<^verbatim>\<open>np.where(col == v)[0]\<close> the ascending positions that hold \<open>v\<close>.
\<close>

definition np_unique :: "int list \<Rightarrow> int list" where
  "np_unique col = sort (remdups col)"

definition np_where_eq :: "int list \<Rightarrow> int \<Rightarrow> nat list" where
  "np_where_eq col v = filter (\<lambda>i. col ! i = v) [0..<length col]"

text \<open>
  \<^verbatim>\<open>astype(np.int32)\<close> on a float truncates towards zero (values beyond the
  32-bit range do not occur for pixel coordinates and are not modelled).
\<close>

definition astype_int32 :: "real \<Rightarrow> int" where
  "astype_int32 v = (if 0 \<le> v then \<lfloor>v\<rfloor> else \<lceil>v\<rceil>)"

subsection \<open>Group index\<close>

text \<open>
  The block \<^verbatim>\<open>#CREATE GROUP INDEX\<close> of \<^verbatim>\<open>add\<close>, lines 505 to 520, for a
  channel with a \<^verbatim>\<open>group\<close> column. The index is a scipy \<^verbatim>\<open>lil_matrix\<close> of
  booleans with one row per distinct group id; a \<^verbatim>\<open>lil_matrix\<close> stores, for each
  row, the ascending list of the columns that are set, and that list is what
  \<^verbatim>\<open>group_index[i].nonzero()[1]\<close> returns. Row \<open>i\<close> belongs to the \<open>i\<close>-th smallest
  group id.
\<close>

definition create_group_index :: "int list \<Rightarrow> nat list list" where
  "create_group_index group_col =
     (let groups = np_unique group_col
      in map (\<lambda>grp. np_where_eq group_col grp) groups)"

subsection \<open>Histogram rendering\<close>

text \<open>
  Modelled from the spec: \<^verbatim>\<open>render._fill\<close> lives in \<^verbatim>\<open>picasso/render.py\<close>,
  which is not among the sources. The spec lets the renderer accumulate a 2D histogram by
  nearest deposition: every point adds one count to the pixel that holds it, the pixel
  row given by the second coordinate and the column by the first, both truncated to
  integers. A point outside the image is reported as IndexError (the compiled original
  does not check bounds).
\<close>

fun fill :: "real list list \<Rightarrow> (real \<times> real) list \<Rightarrow> error + real list list" where
  "fill img [] = Inr img"
| "fill img ((u, v) # pts) =
     (let i = astype_int32 u; j = astype_int32 v
      in if 0 \<le> j \<and> nat j < length img \<and> 0 \<le> i \<and> nat i < length (img ! nat j)
         then fill (img[nat j := (img ! nat j)[nat i := img ! nat j ! nat i + 1]]) pts
         else Inl IndexError)"

text \<open>
  \<^verbatim>\<open>render_histxyz(a, b, oversampling, a_min, a_max, b_min, b_max)\<close>, lines 48 to
  60. The two coordinate arrays are masked together, so they must have one length;
  \<^verbatim>\<open>np.zeros\<close> raises ValueError on a negative dimension. The image has
  \<open>n_pixel_b\<close> rows and \<open>n_pixel_a\<close> columns.
\<close>

definition in_view :: "real \<Rightarrow> real \<Rightarrow> real \<Rightarrow> real \<Rightarrow> real \<times> real \<Rightarrow> bool" where
  "in_view a_min a_max b_min b_max pt =
     (fst pt > a_min \<and> snd pt > b_min \<and> fst pt < a_max \<and> snd pt < b_max)"

definition render_histxyz ::
  "real list \<Rightarrow> real list \<Rightarrow> real \<Rightarrow> real \<Rightarrow> real \<Rightarrow> real \<Rightarrow> real
     \<Rightarrow> error + (nat \<times> real list list)" where
  "render_histxyz a b os a_min a_max b_min b_max =
     (let n_pixel_a = \<lceil>os * (a_max - a_min)\<rceil>;
          n_pixel_b = \<lceil>os * (b_max - b_min)\<rceil>
      in if length a \<noteq> length b then Inl ValueError
         else
           let kept = filter (in_view a_min a_max b_min b_max) (zip a b);
               scaled = map (\<lambda>pt. (os * (fst pt - a_min), os * (snd pt - b_min))) kept
           in if n_pixel_a < 0 \<or> n_pixel_b < 0 then Inl ValueError
              else
                case fill (replicate (nat n_pixel_b) (replicate (nat n_pixel_a) 0)) scaled of
                  Inl e \<Rightarrow> Inl e
                | Inr img \<Rightarrow> Inr (length scaled, img))"

text \<open>
  \<^verbatim>\<open>render_hist(x, y, oversampling, t_min, t_max)\<close>, lines 36 to 46: the same with
  one pair of bounds for both axes and a square image.
\<close>

definition render_hist ::
  "real list \<Rightarrow> real list \<Rightarrow> real \<Rightarrow> real \<Rightarrow> real \<Rightarrow> error + (nat \<times> real list list)" where
  "render_hist xs ys os lo hi =
     (let n_pixel = \<lceil>os * (hi - lo)\<rceil>
      in if length xs \<noteq> length ys then Inl ValueError
         else
           let kept = filter (\<lambda>pt. fst pt > lo \<and> snd pt > lo \<and> fst pt < hi \<and> snd pt < hi)
                        (zip xs ys);
               scaled = map (\<lambda>pt. (os * (fst pt - lo), os * (snd pt - lo))) kept
           in if n_pixel < 0 then Inl ValueError
              else
                case fill (replicate (nat n_pixel) (replicate (nat n_pixel) 0)) scaled of
                  Inl e \<Rightarrow> Inl e
                | Inr img \<Rightarrow> Inr (length scaled, img))"

subsection \<open>More numpy: reductions, indexing, Fourier transforms\<close>

text \<open>
  \<^verbatim>\<open>np.mean\<close> of an array. On an empty array numpy returns nan (with a warning, not
  an exception); the reals have no nan, and the callers below either never pass an empty
  array or say what happens then.
\<close>

definition np_mean :: "real list \<Rightarrow> real" where
  "np_mean xs = sum_list xs / real (length xs)"

text \<open>
  \<^verbatim>\<open>np.argmax\<close> of a one-dimensional array: the first position of the maximum;
  ValueError on an empty array.
\<close>

fun first_max :: "real list \<Rightarrow> nat" where
  "first_max [] = 0"
| "first_max [v] = 0"
| "first_max (v # vs) = (let i = first_max vs in if v < vs ! i then Suc i else 0)"

definition np_argmax :: "real list \<Rightarrow> error + nat" where
  "np_argmax xs = (if xs = [] then Inl ValueError else Inr (first_max xs))"

text \<open>
  Fancy indexing with an index array: \<^verbatim>\<open>xs[index]\<close> reads the listed positions
  (IndexError when one is out of range) and \<^verbatim>\<open>xs[index] = vals\<close> writes them in
  order.
\<close>

definition np_take :: "real list \<Rightarrow> nat list \<Rightarrow> error + real list" where
  "np_take xs index =
     (if \<forall>i\<in>set index. i < length xs then Inr (map (\<lambda>i. xs ! i) index)
      else Inl IndexError)"

fun np_put :: "real list \<Rightarrow> nat list \<Rightarrow> real list \<Rightarrow> real list" where
  "np_put xs (i # idx) (v # vs) = np_put (xs[i := v]) idx vs"
| "np_put xs _ _ = xs"

text \<open>
  The discrete Fourier transforms of numpy on a two-dimensional array with \<open>M\<close> rows
  and \<open>N\<close> columns:
  \<^verbatim>\<open>fft2(a)[u, v] = sum_m sum_n a[m, n] * exp(-2 pi i (u m / M + v n / N))\<close>, and
  \<^verbatim>\<open>ifft2\<close> with the opposite sign and the factor \<open>1 / (M N)\<close>. \<^verbatim>\<open>fftshift\<close>
  rolls every axis by half its length: \<open>y[i] = x[(i - n div 2) mod n]\<close>.
\<close>

definition ncols :: "'a list list \<Rightarrow> nat" where
  "ncols m = (case m of [] \<Rightarrow> 0 | row # _ \<Rightarrow> length row)"

definition fft2 :: "complex list list \<Rightarrow> complex list list" where
  "fft2 a =
     (let M = length a; N = ncols a
      in map (\<lambda>u. map (\<lambda>v.
           (\<Sum>m\<leftarrow>[0..<M]. \<Sum>n\<leftarrow>[0..<N].
              a ! m ! n * cis (- 2 * pi * (real u * real m / real M + real v * real n / real N))))
           [0..<N]) [0..<M])"

definition ifft2 :: "complex list list \<Rightarrow> complex list list" where
  "ifft2 a =
     (let M = length a; N = ncols a
      in map (\<lambda>m. map (\<lambda>n.
           (\<Sum>u\<leftarrow>[0..<M]. \<Sum>v\<leftarrow>[0..<N].
              a ! u ! v * cis (2 * pi * (real u * real m / real M + real v * real n / real N)))
             / complex_of_real (real M * real N))
           [0..<N]) [0..<M])"

definition fftshift :: "real list list \<Rightarrow> real list list" where
  "fftshift a =
     (let M = length a; N = ncols a
      in map (\<lambda>i. map (\<lambda>j. a ! ((i + M - M div 2) mod M) ! ((j + N - N div 2) mod N))
           [0..<N]) [0..<M])"

text \<open>
  \<^verbatim>\<open>compute_xcorr(CF_image_avg, image)\<close>, lines 77 to 80. The elementwise product
  needs the two arrays to have one shape (ValueError otherwise; broadcasting of an axis
  of length one is not modelled).
\<close>

definition compute_xcorr :: "complex list list \<Rightarrow> real list list \<Rightarrow> error + real list list" where
  "compute_xcorr CF_image_avg img =
     (let F_image = fft2 (map (map complex_of_real) img)
      in if map length F_image \<noteq> map length CF_image_avg then Inl ValueError
         else Inr (fftshift (map (map Re)
                (ifft2 (map2 (map2 (\<lambda>f c. f * c)) F_image CF_image_avg)))))"

subsection \<open>The window state\<close>

text \<open>
  One channel \<^verbatim>\<open>self.locs[j]\<close> is a record array; its coordinate columns
  \<^verbatim>\<open>.x\<close>, \<^verbatim>\<open>.y\<close>, \<^verbatim>\<open>.z\<close> are arrays of one length.
\<close>

record channel =
  loc_x :: "real list"
  loc_y :: "real list"
  loc_z :: "real list"

text \<open>
  The attributes of the window that the engine reads and writes. \<open>checks\<close> holds
  \<^verbatim>\<open>self.dataset_dialog.checks[j].isChecked()\<close> for every channel and
  \<open>translatebtn\<close> the state of the button "Translate only"; \<open>group_index\<close> holds for
  every channel the rows of its index, each row the list
  \<^verbatim>\<open>group_index[j][i].nonzero()[1]\<close>.
\<close>

record window =
  locs :: "channel list"
  checks :: "bool list"
  group_index :: "nat list list list"
  n_groups :: nat
  t_min :: real
  t_max :: real
  z_min :: real
  z_max :: real
  r :: real
  r_z :: real
  pixelsize :: real
  oversampling :: real
  translatebtn :: bool

definition group_rows :: "window \<Rightarrow> nat \<Rightarrow> nat \<Rightarrow> error + nat list" where
  \<comment> \<open>\<^verbatim>\<open>self.group_index[j][group].nonzero()[1]\<close>\<close>
  "group_rows w j grp =
     (if j < length (group_index w) \<and> grp < length (group_index w ! j)
      then Inr (group_index w ! j ! grp) else Inl IndexError)"

definition take_xyz ::
  "channel \<Rightarrow> nat list \<Rightarrow> error + (real list \<times> real list \<times> real list)" where
  \<comment> \<open>the three reads \<^verbatim>\<open>.x[index]\<close>, \<^verbatim>\<open>.y[index]\<close>, \<^verbatim>\<open>.z[index]\<close>\<close>
  "take_xyz ch index =
     (case np_take (loc_x ch) index of Inl e \<Rightarrow> Inl e | Inr sx \<Rightarrow>
      case np_take (loc_y ch) index of Inl e \<Rightarrow> Inl e | Inr sy \<Rightarrow>
      case np_take (loc_z ch) index of Inl e \<Rightarrow> Inl e | Inr sz \<Rightarrow> Inr (sx, sy, sz))"

subsection \<open>Recentring by centre of mass\<close>

text \<open>
  \<^verbatim>\<open>centerofmass\<close>, lines 562 to 644. For every group the member coordinates of all
  channels are stacked, their mean is taken and subtracted from the members in every
  channel; the loops run over \<^verbatim>\<open>range(n_channels)\<close> and do not consult the check
  boxes. \<open>stack_group\<close> is the first inner loop with \<^verbatim>\<open>stack_arrays\<close>,
  \<open>subtract_group\<close> the second. When a group has no member in any channel the mean is nan,
  and it is subtracted from no coordinate.
\<close>

fun stack_group ::
  "window \<Rightarrow> nat \<Rightarrow> nat list \<Rightarrow> error + (real list \<times> real list \<times> real list)" where
  "stack_group w i [] = Inr ([], [], [])"
| "stack_group w i (j # js) =
     (case group_rows w j i of Inl e \<Rightarrow> Inl e | Inr index \<Rightarrow>
      case take_xyz (locs w ! j) index of Inl e \<Rightarrow> Inl e | Inr (sx, sy, sz) \<Rightarrow>
      case stack_group w i js of Inl e \<Rightarrow> Inl e
      | Inr (ox, oy, oz) \<Rightarrow> Inr (sx @ ox, sy @ oy, sz @ oz))"

definition subtract_at :: "real list \<Rightarrow> nat list \<Rightarrow> real \<Rightarrow> real list" where
  \<comment> \<open>\<^verbatim>\<open>xs[index] -= m\<close>\<close>
  "subtract_at xs index m = np_put xs index (map (\<lambda>i. xs ! i - m) index)"

definition subtract_group :: "channel \<Rightarrow> nat list \<Rightarrow> real \<Rightarrow> real \<Rightarrow> real \<Rightarrow> channel" where
  "subtract_group ch index mean_x mean_y mean_z =
     ch\<lparr>loc_x := subtract_at (loc_x ch) index mean_x,
        loc_y := subtract_at (loc_y ch) index mean_y,
        loc_z := subtract_at (loc_z ch) index mean_z\<rparr>"

definition com_group :: "window \<Rightarrow> nat \<Rightarrow> error + window" where
  "com_group w i =
     (let n_channels = length (locs w)
      in case stack_group w i [0..<n_channels] of Inl e \<Rightarrow> Inl e
         | Inr (out_locs_x, out_locs_y, out_locs_z) \<Rightarrow>
             let mean_x = np_mean out_locs_x;
                 mean_y = np_mean out_locs_y;
                 mean_z = np_mean out_locs_z
             in Inr (w\<lparr>locs := map (\<lambda>j. subtract_group (locs w ! j) (group_index w ! j ! i)
                                        mean_x mean_y mean_z) [0..<n_channels]\<rparr>))"

fun com_groups :: "window \<Rightarrow> nat list \<Rightarrow> error + window" where
  "com_groups w [] = Inr w"
| "com_groups w (i # is) =
     (case com_group w i of Inl e \<Rightarrow> Inl e | Inr w' \<Rightarrow> com_groups w' is)"

text \<open>
  The block \<^verbatim>\<open>#CALCULATE PROPER R VALUES\<close>, lines 602 to 611. The mean over an empty
  channel is nan and makes the radius nan: the model reports that as NotANumber, which is
  no Python exception.
\<close>

fun r_values :: "channel list \<Rightarrow> real \<times> real \<Rightarrow> error + (real \<times> real)" where
  "r_values [] (rv, rzv) = Inr (rv, rzv)"
| "r_values (ch # chs) (rv, rzv) =
     (if loc_x ch = [] \<or> loc_y ch = [] \<or> loc_z ch = [] then Inl NotANumber
      else if length (loc_x ch) \<noteq> length (loc_y ch) then Inl ValueError
      else r_values chs
        (max (3 * sqrt (np_mean (map2 (\<lambda>x y. x\<^sup>2 + y\<^sup>2) (loc_x ch) (loc_y ch)))) rv,
         max (5 * sqrt (np_mean (map (\<lambda>z. z\<^sup>2) (loc_z ch)))) rzv))"

definition centerofmass :: "window \<Rightarrow> error + window" where
  "centerofmass w =
     (case com_groups w [0..<n_groups w] of Inl e \<Rightarrow> Inl e | Inr w1 \<Rightarrow>
      case r_values (locs w1) (0, 0) of Inl e \<Rightarrow> Inl e
      | Inr (rv, rzv) \<Rightarrow>
          Inr (w1\<lparr>r := rv, r_z := rzv, t_min := - rv, t_max := rv,
                  z_min := - rzv, z_max := rzv, oversampling := 5\<rparr>))"

text \<open>
  What the specification asks of the recentring instead: the centroid of a group taken
  over the members in the enabled channels only. Used to compare with \<open>com_group\<close>.
\<close>

definition enabled_centroid_x :: "window \<Rightarrow> nat \<Rightarrow> real" where
  "enabled_centroid_x w i =
     np_mean (concat (map (\<lambda>j. map (\<lambda>k. loc_x (locs w ! j) ! k) (group_index w ! j ! i))
                (filter (\<lambda>j. checks w ! j) [0..<length (locs w)])))"

text \<open>
  The root mean square of the specification's bounding radius, to compare with what
  \<open>r_values\<close> computes.
\<close>

definition rms :: "real list \<Rightarrow> real" where
  "rms vs = sqrt (np_mean (map (\<lambda>v. v\<^sup>2) vs))"

text \<open>
  A window with two channels, the second one disabled, that hold one localization each,
  both in group 0.
\<close>

definition com_example :: window where
  "com_example =
     \<lparr>locs = [\<lparr>loc_x = [0], loc_y = [0], loc_z = [0]\<rparr>,
              \<lparr>loc_x = [2], loc_y = [4], loc_z = [6]\<rparr>],
      checks = [True, False],
      group_index = [[[0]], [[0]]],
      n_groups = 1,
      t_min = - 1, t_max = 1, z_min = - 1, z_max = 1, r = 1, r_z = 1,
      pixelsize = 1, oversampling = 1, translatebtn = False\<rparr>"

text \<open>
  A window with one channel of two localizations in one group, already centred.
\<close>

definition bounds_example :: window where
  "bounds_example =
     \<lparr>locs = [\<lparr>loc_x = [1, - 1], loc_y = [0, 0], loc_z = [1, - 1]\<rparr>],
      checks = [True],
      group_index = [[[0, 1]]],
      n_groups = 1,
      t_min = - 1, t_max = 1, z_min = - 1, z_max = 1, r = 1, r_z = 1,
      pixelsize = 1, oversampling = 1, translatebtn = False\<rparr>"

subsection \<open>Symmetrised reference images\<close>

text \<open>
  The blocks \<^verbatim>\<open>if self.radio_sym.isChecked()\<close> and
  \<^verbatim>\<open>if self.radio_sym_custom.isChecked()\<close> of \<^verbatim>\<open>rotate_groups\<close> (lines 1047
  to 1095) and of \<^verbatim>\<open>rotatexy_convolution\<close> (lines 943 to 992), which are the same.
  \<^verbatim>\<open>scipy.ndimage.interpolation.rotate(imageold, degrees, axes=(1, 0), reshape=False)\<close>
  is a library function and a parameter \<open>rot\<close> of the model. The loop adds the turned
  copies of the saved first image to the first image of the list; \<^verbatim>\<open>+=\<close> needs equal
  shapes. The custom angles are the numbers that \<^verbatim>\<open>float\<close> reads from the text field.
\<close>

fun symmetry_loop ::
  "(real list list \<Rightarrow> real \<Rightarrow> real list list) \<Rightarrow> real list list \<Rightarrow> real list
     \<Rightarrow> real list list \<Rightarrow> error + real list list" where
  "symmetry_loop rot imageold [] acc = Inr acc"
| "symmetry_loop rot imageold (d # ds) acc =
     (let turned = rot imageold d
      in if map length turned \<noteq> map length acc then Inl ValueError
         else symmetry_loop rot imageold ds (map2 (map2 (\<lambda>a b. a + b)) acc turned))"

definition symmetry_angles :: "int \<Rightarrow> real list" where
  \<comment> \<open>\<^verbatim>\<open>(i+1)*360/symmetry\<close> for \<^verbatim>\<open>i in range(symmetry-1)\<close>\<close>
  "symmetry_angles symmetry =
     map (\<lambda>i. (real i + 1) * 360 / real_of_int symmetry) [0..<nat (symmetry - 1)]"

definition symmetrize_first ::
  "(real list list \<Rightarrow> real \<Rightarrow> real list list) \<Rightarrow> real list \<Rightarrow> real list list list
     \<Rightarrow> error + real list list list" where
  "symmetrize_first rot degrees image_list =
     (case image_list of
        [] \<Rightarrow> Inl IndexError
      | first # rest \<Rightarrow>
          (case symmetry_loop rot first degrees first of
             Inl e \<Rightarrow> Inl e
           | Inr summed \<Rightarrow> Inr (summed # rest)))"

definition reference_images ::
  "(real list list \<Rightarrow> real \<Rightarrow> real list list) \<Rightarrow> bool \<Rightarrow> int \<Rightarrow> bool \<Rightarrow> real list
     \<Rightarrow> real list list list \<Rightarrow> error + real list list list" where
  "reference_images rot radio_sym symmetry radio_sym_custom custom image_list =
     (case (if radio_sym then symmetrize_first rot (symmetry_angles symmetry) image_list
            else Inr image_list) of
        Inl e \<Rightarrow> Inl e
      | Inr image1 \<Rightarrow>
          if radio_sym_custom then symmetrize_first rot custom image1 else Inr image1)"

text \<open>
  The reference that the groups are scored against: \<^verbatim>\<open>rotatexy_convolution\<close> passes
  the images on (line 994), \<^verbatim>\<open>rotate_groups\<close> their conjugated Fourier transforms
  (line 1100).
\<close>

definition conj_fft2 :: "real list list \<Rightarrow> complex list list" where
  "conj_fft2 img = map (map cnj) (fft2 (map (map complex_of_real) img))"

definition rotatexy_convolution_reference ::
  "(real list list \<Rightarrow> real \<Rightarrow> real list list) \<Rightarrow> bool \<Rightarrow> int \<Rightarrow> bool \<Rightarrow> real list
     \<Rightarrow> real list list list \<Rightarrow> error + real list list list" where
  "rotatexy_convolution_reference rot radio_sym symmetry radio_sym_custom custom image_list =
     reference_images rot radio_sym symmetry radio_sym_custom custom image_list"

definition rotate_groups_reference ::
  "(real list list \<Rightarrow> real \<Rightarrow> real list list) \<Rightarrow> bool \<Rightarrow> int \<Rightarrow> bool \<Rightarrow> real list
     \<Rightarrow> real list list list \<Rightarrow> error + complex list list list" where
  "rotate_groups_reference rot radio_sym symmetry radio_sym_custom custom image_list =
     (case reference_images rot radio_sym symmetry radio_sym_custom custom image_list of
        Inl e \<Rightarrow> Inl e
      | Inr images \<Rightarrow> Inr (map conj_fft2 images))"

section \<open>Properties\<close>

subsection \<open>Rotation round trip\<close>

lemma rot_back_a:
  fixes c s p u w :: real
  assumes "c * c + s * s = 1" and "p \<noteq> 0"
  shows "c * (c * u + s * (w / p)) - s * ((- s * u * p + c * w) / p) = u"
proof -
  have e: "(- s * u * p + c * w) / p = - s * u + c * w / p"
    using assms(2) by (simp add: diff_divide_distrib add_divide_distrib)
  have "c * (c * u + s * (w / p)) - s * (- s * u + c * w / p) = (c * c + s * s) * u"
    by (simp add: algebra_simps)
  then show ?thesis unfolding e using assms(1) by simp
qed

lemma rot_back_b:
  fixes c s p u w :: real
  assumes "c * c + s * s = 1" and "p \<noteq> 0"
  shows "s * (c * u + s * (w / p)) * p + c * (- s * u * p + c * w) = w"
proof -
  have "s * (c * u + s * (w / p)) * p = s * c * u * p + s * s * w"
    using assms(2) by (simp add: field_simps)
  then have "s * (c * u + s * (w / p)) * p + c * (- s * u * p + c * w)
      = (c * c + s * s) * w"
    by (simp add: algebra_simps)
  then show ?thesis using assms(1) by simp
qed

lemma rot_back_c:
  fixes c s p u w :: real
  assumes "c * c + s * s = 1" and "p \<noteq> 0"
  shows "c * (c * u - s * (w / p)) + s * ((s * u * p + c * w) / p) = u"
  using rot_back_a [of c "- s" p u w] assms by simp

lemma rot_back_d:
  fixes c s p u w :: real
  assumes "c * c + s * s = 1" and "p \<noteq> 0"
  shows "- s * (c * u - s * (w / p)) * p + c * (s * u * p + c * w) = w"
  using rot_back_b [of c "- s" p u w] assms by simp

lemma rot_back_e:
  fixes c s u w :: real
  assumes "c * c + s * s = 1"
  shows "c * (c * u - s * w) + s * (s * u + c * w) = u"
    and "- s * (c * u - s * w) + c * (s * u + c * w) = w"
proof -
  have "c * (c * u - s * w) + s * (s * u + c * w) = (c * c + s * s) * u"
    by (simp add: algebra_simps)
  then show "c * (c * u - s * w) + s * (s * u + c * w) = u" using assms by simp
  have "- s * (c * u - s * w) + c * (s * u + c * w) = (c * c + s * s) * w"
    by (simp add: algebra_simps)
  then show "- s * (c * u - s * w) + c * (s * u + c * w) = w" using assms by simp
qed

lemma map2_back_fst:
  assumes "length xs = length ys" and "\<And>u w. F (G u w) (H u w) = u"
  shows "map2 F (map2 G xs ys) (map2 H xs ys) = xs"
  using assms by (intro nth_equalityI) simp_all

lemma map2_back_snd:
  assumes "length xs = length ys" and "\<And>u w. F (G u w) (H u w) = w"
  shows "map2 F (map2 G xs ys) (map2 H xs ys) = ys"
  using assms by (intro nth_equalityI) simp_all

text \<open>
  C4. For each of the axes x, y and z, every nonzero pixelsize, every angle and all
  coordinates (three columns of one length, in particular a single triple), rotating by
  the angle and then by its negation gives the original coordinates back (in real
  arithmetic).
\<close>

theorem rotate_axis_round_trip:
  assumes "axis \<in> {''x'', ''y'', ''z''}" and "p \<noteq> 0"
    and "length vx = length vy" and "length vy = length vz"
  shows "\<exists>x' y' z'. rotate_axis axis vx vy vz angle p = Inr (x', y', z')
           \<and> rotate_axis axis x' y' z' (- angle) p = Inr (vx, vy, vz)"
proof -
  have sq: "cos angle * cos angle + sin angle * sin angle = 1"
    using sin_cos_squared_add2 [of angle] by (simp add: power2_eq_square)
  from assms(1) consider "axis = ''x''" | "axis = ''y''" | "axis = ''z''" by auto
  then show ?thesis
  proof cases
    case 1
    have "map2 (\<lambda>y z. cos angle * y + sin angle * (z / p))
            (map2 (\<lambda>y z. cos angle * y - sin angle * (z / p)) vy vz)
            (map2 (\<lambda>y z. sin angle * y * p + cos angle * z) vy vz) = vy"
      by (rule map2_back_fst [OF assms(4)]) (rule rot_back_c [OF sq assms(2)])
    moreover have "map2 (\<lambda>y z. - (sin angle * y * p) + cos angle * z)
            (map2 (\<lambda>y z. cos angle * y - sin angle * (z / p)) vy vz)
            (map2 (\<lambda>y z. sin angle * y * p + cos angle * z) vy vz) = vz"
      by (rule map2_back_snd [OF assms(4)]) (use rot_back_d [OF sq assms(2)] in simp)
    ultimately show ?thesis using 1 assms(4)
      by (simp add: rotate_axis_def)
  next
    case 2
    have l: "length vx = length vz" using assms(3,4) by simp
    have "map2 (\<lambda>x z. cos angle * x - sin angle * (z / p))
            (map2 (\<lambda>x z. cos angle * x + sin angle * (z / p)) vx vz)
            (map2 (\<lambda>x z. - sin angle * x * p + cos angle * z) vx vz) = vx"
      by (rule map2_back_fst [OF l]) (rule rot_back_a [OF sq assms(2)])
    moreover have "map2 (\<lambda>x z. sin angle * x * p + cos angle * z)
            (map2 (\<lambda>x z. cos angle * x + sin angle * (z / p)) vx vz)
            (map2 (\<lambda>x z. - sin angle * x * p + cos angle * z) vx vz) = vz"
      by (rule map2_back_snd [OF l]) (rule rot_back_b [OF sq assms(2)])
    ultimately show ?thesis using 2 l
      by (simp add: rotate_axis_def)
  next
    case 3
    have "map2 (\<lambda>x y. cos angle * x + sin angle * y)
            (map2 (\<lambda>x y. cos angle * x - sin angle * y) vx vy)
            (map2 (\<lambda>x y. sin angle * x + cos angle * y) vx vy) = vx"
      by (rule map2_back_fst [OF assms(3)]) (rule rot_back_e(1) [OF sq])
    moreover have "map2 (\<lambda>x y. - (sin angle * x) + cos angle * y)
            (map2 (\<lambda>x y. cos angle * x - sin angle * y) vx vy)
            (map2 (\<lambda>x y. sin angle * x + cos angle * y) vx vy) = vy"
      by (rule map2_back_snd [OF assms(3)]) (use rot_back_e(2) [OF sq] in simp)
    ultimately show ?thesis using 3 assms(3)
      by (simp add: rotate_axis_def)
  qed
qed

theorem rotate_axis_round_trip_witness:
  "''y'' \<in> {''x'', ''y'', ''z''} \<and> (2::real) \<noteq> 0
   \<and> length [1::real] = length [2::real] \<and> length [2::real] = length [3::real]
   \<and> (\<exists>x' y' z'. rotate_axis ''y'' [1] [2] [3] 0 2 = Inr (x', y', z')
           \<and> rotate_axis ''y'' x' y' z' (- 0) 2 = Inr ([1], [2], [3]))"
  using rotate_axis_round_trip [of "''y''" 2 "[1]" "[2]" "[3]" 0] by simp

subsection \<open>Group index\<close>

lemma mset_concat_where:
  "distinct vs \<Longrightarrow>
   mset (concat (map (\<lambda>v. filter (\<lambda>i. h i = v) xs) vs)) = mset (filter (\<lambda>i. h i \<in> set vs) xs)"
proof (induction vs)
  case Nil
  then show ?case by simp
next
  case (Cons v vs)
  have "mset (filter (\<lambda>i. h i = v) xs) + mset (filter (\<lambda>i. h i \<in> set vs) xs)
        = mset (filter (\<lambda>i. h i = v \<or> h i \<in> set vs) xs)"
    using Cons.prems by (induction xs) auto
  with Cons show ?case by simp
qed

lemma np_unique_props: "distinct (np_unique col)" "set (np_unique col) = set col"
  by (simp_all add: np_unique_def)

lemma mset_create_group_index:
  "mset (concat (create_group_index col)) = mset [0..<length col]"
proof -
  have "mset (concat (create_group_index col))
        = mset (filter (\<lambda>i. col ! i \<in> set (np_unique col)) [0..<length col])"
    unfolding create_group_index_def Let_def np_where_eq_def
    by (rule mset_concat_where) (rule np_unique_props)
  also have "filter (\<lambda>i. col ! i \<in> set (np_unique col)) [0..<length col] = [0..<length col]"
    by (rule filter_True) (simp add: np_unique_props)
  finally show ?thesis .
qed

lemma member_row:
  assumes "k < length (np_unique col)"
  shows "i \<in> set (create_group_index col ! k) \<longleftrightarrow> i < length col \<and> col ! i = np_unique col ! k"
  using assms by (auto simp: create_group_index_def np_where_eq_def)

text \<open>
  C8. For a channel whose localizations all carry a group id, the group index partitions
  the row indices: the sorted union of the member lists is \<open>0..n-1\<close> without
  duplicates, every row index lies in exactly one member list, and every member list is
  duplicate free and within range.
\<close>

theorem group_index_partition:
  "sort (concat (create_group_index col)) = [0..<length col]
   \<and> (\<forall>i<length col. \<exists>!k. k < length (create_group_index col)
          \<and> i \<in> set (create_group_index col ! k))
   \<and> (\<forall>k<length (create_group_index col). distinct (create_group_index col ! k)
          \<and> set (create_group_index col ! k) \<subseteq> {0..<length col})"
proof (intro conjI allI impI)
  show "sort (concat (create_group_index col)) = [0..<length col]"
    by (rule properties_for_sort) (simp_all add: mset_create_group_index)
next
  fix i assume i: "i < length col"
  have len: "length (create_group_index col) = length (np_unique col)"
    by (simp add: create_group_index_def)
  from i have "col ! i \<in> set (np_unique col)" by (simp add: np_unique_props)
  then obtain k where k: "k < length (np_unique col)" "np_unique col ! k = col ! i"
    by (auto simp: in_set_conv_nth)
  show "\<exists>!k. k < length (create_group_index col) \<and> i \<in> set (create_group_index col ! k)"
  proof (rule ex1I [of _ k])
    show "k < length (create_group_index col) \<and> i \<in> set (create_group_index col ! k)"
      using k i len by (simp add: member_row)
  next
    fix k' assume "k' < length (create_group_index col) \<and> i \<in> set (create_group_index col ! k')"
    then have k': "k' < length (np_unique col)" "i \<in> set (create_group_index col ! k')"
      using len by simp_all
    then have "np_unique col ! k' = col ! i"
      using member_row [of k' col i] by simp
    note k' = k'(1) this
    with k k' show "k' = k"
      using np_unique_props(1) [of col] by (metis nth_eq_iff_index_eq)
  qed
next
  fix k assume "k < length (create_group_index col)"
  then show "distinct (create_group_index col ! k)"
    by (simp add: create_group_index_def np_where_eq_def)
next
  fix k assume "k < length (create_group_index col)"
  then show "set (create_group_index col ! k) \<subseteq> {0..<length col}"
    by (auto simp: create_group_index_def np_where_eq_def)
qed

theorem group_index_partition_witness:
  "sort (concat (create_group_index [7, 3, 7, 5])) = [0..<length [7, 3, 7, 5 :: int]]
   \<and> create_group_index [7, 3, 7, 5] = [[1], [3], [0, 2]]"
  using group_index_partition [of "[7, 3, 7, 5]"]
  by (simp add: create_group_index_def np_unique_def np_where_eq_def upt_rec)

subsection \<open>Histogram rendering\<close>




lemma render_hist_eq_histxyz:
  "render_hist xs ys os lo hi = render_histxyz xs ys os lo hi lo hi"
proof -
  have "in_view lo hi lo hi = (\<lambda>pt. fst pt > lo \<and> snd pt > lo \<and> fst pt < hi \<and> snd pt < hi)"
    by (simp add: in_view_def fun_eq_iff)
  then show ?thesis
    by (simp add: render_hist_def render_histxyz_def Let_def)
qed




subsection \<open>Recentring by centre of mass\<close>

lemma np_put_length [simp]: "length (np_put xs idx vs) = length xs"
  by (induction xs idx vs rule: np_put.induct) simp_all

lemma np_put_map_nth:
  assumes "k < length ys" and "\<forall>i\<in>set idx. i < length ys"
  shows "np_put ys idx (map g idx) ! k = (if k \<in> set idx then g k else ys ! k)"
  using assms
proof (induction idx arbitrary: ys)
  case Nil
  then show ?case by simp
next
  case (Cons i idx)
  have "np_put ys (i # idx) (map g (i # idx)) ! k = np_put (ys[i := g i]) idx (map g idx) ! k"
    by simp
  also have "\<dots> = (if k \<in> set idx then g k else (ys[i := g i]) ! k)"
    using Cons.prems by (intro Cons.IH) simp_all
  also have "\<dots> = (if k \<in> set (i # idx) then g k else ys ! k)"
    using Cons.prems by (auto simp: nth_list_update)
  finally show ?case .
qed

lemma subtract_at_nth:
  assumes "k < length xs" and "\<forall>i\<in>set idx. i < length xs"
  shows "subtract_at xs idx m ! k = (if k \<in> set idx then xs ! k - m else xs ! k)"
  unfolding subtract_at_def using np_put_map_nth [OF assms, of "\<lambda>i. xs ! i - m"] .

lemma subtract_at_length [simp]: "length (subtract_at xs idx m) = length xs"
  by (simp add: subtract_at_def)

lemma take_xyz_Inr:
  assumes "take_xyz ch index = Inr (sx, sy, sz)"
  shows "sx = map (\<lambda>k. loc_x ch ! k) index" "sy = map (\<lambda>k. loc_y ch ! k) index"
    "sz = map (\<lambda>k. loc_z ch ! k) index"
    "\<forall>k\<in>set index. k < length (loc_x ch) \<and> k < length (loc_y ch) \<and> k < length (loc_z ch)"
  using assms by (auto simp: take_xyz_def np_take_def split: if_splits)

lemma stack_group_Inr:
  assumes "stack_group w i js = Inr (ox, oy, oz)"
  shows "ox = concat (map (\<lambda>j. map (\<lambda>k. loc_x (locs w ! j) ! k) (group_index w ! j ! i)) js)
       \<and> oy = concat (map (\<lambda>j. map (\<lambda>k. loc_y (locs w ! j) ! k) (group_index w ! j ! i)) js)
       \<and> oz = concat (map (\<lambda>j. map (\<lambda>k. loc_z (locs w ! j) ! k) (group_index w ! j ! i)) js)
       \<and> (\<forall>j\<in>set js. \<forall>k\<in>set (group_index w ! j ! i).
             k < length (loc_x (locs w ! j)) \<and> k < length (loc_y (locs w ! j))
           \<and> k < length (loc_z (locs w ! j)))"
  using assms
proof (induction js arbitrary: ox oy oz)
  case Nil
  then show ?case by simp
next
  case (Cons j js)
  from Cons.prems obtain index sx sy sz px py pz where
    g: "group_rows w j i = Inr index" and t: "take_xyz (locs w ! j) index = Inr (sx, sy, sz)"
    and s: "stack_group w i js = Inr (px, py, pz)"
    and o: "ox = sx @ px" "oy = sy @ py" "oz = sz @ pz"
    by (auto split: sum.splits)
  from g have idx: "index = group_index w ! j ! i"
    by (simp add: group_rows_def split: if_splits)
  show ?case
    using Cons.IH [OF s] take_xyz_Inr [OF t] o idx by simp
qed


text \<open>
  C6, as the code has it. In the recentring step, for every group, the centroid is the
  mean over the group's member points in all channels, enabled or not, and it is
  subtracted from the group's members in every channel; the other localizations keep
  their coordinates.
\<close>

theorem com_group_all_channels:
  assumes "com_group w i = Inr w'"
  shows "length (locs w') = length (locs w)
     \<and> (\<forall>j<length (locs w).
          (\<forall>k<length (loc_x (locs w ! j)). loc_x (locs w' ! j) ! k =
             (if k \<in> set (group_index w ! j ! i)
              then loc_x (locs w ! j) ! k
                 - np_mean (concat (map (\<lambda>j. map (\<lambda>k. loc_x (locs w ! j) ! k)
                                             (group_index w ! j ! i)) [0..<length (locs w)]))
              else loc_x (locs w ! j) ! k))
        \<and> (\<forall>k<length (loc_y (locs w ! j)). loc_y (locs w' ! j) ! k =
             (if k \<in> set (group_index w ! j ! i)
              then loc_y (locs w ! j) ! k
                 - np_mean (concat (map (\<lambda>j. map (\<lambda>k. loc_y (locs w ! j) ! k)
                                             (group_index w ! j ! i)) [0..<length (locs w)]))
              else loc_y (locs w ! j) ! k))
        \<and> (\<forall>k<length (loc_z (locs w ! j)). loc_z (locs w' ! j) ! k =
             (if k \<in> set (group_index w ! j ! i)
              then loc_z (locs w ! j) ! k
                 - np_mean (concat (map (\<lambda>j. map (\<lambda>k. loc_z (locs w ! j) ! k)
                                             (group_index w ! j ! i)) [0..<length (locs w)]))
              else loc_z (locs w ! j) ! k)))"
proof -
  from assms obtain ox oy oz where
    st: "stack_group w i [0..<length (locs w)] = Inr (ox, oy, oz)"
    and w': "w' = w\<lparr>locs := map (\<lambda>j. subtract_group (locs w ! j) (group_index w ! j ! i)
                              (np_mean ox) (np_mean oy) (np_mean oz)) [0..<length (locs w)]\<rparr>"
    by (auto simp: com_group_def Let_def split: sum.splits)
  note sg = stack_group_Inr [OF st]
  from sg have ox: "ox = concat (map (\<lambda>j. map (\<lambda>k. loc_x (locs w ! j) ! k)
                                             (group_index w ! j ! i)) [0..<length (locs w)])"
    and oy: "oy = concat (map (\<lambda>j. map (\<lambda>k. loc_y (locs w ! j) ! k)
                                             (group_index w ! j ! i)) [0..<length (locs w)])"
    and oz: "oz = concat (map (\<lambda>j. map (\<lambda>k. loc_z (locs w ! j) ! k)
                                             (group_index w ! j ! i)) [0..<length (locs w)])"
    by blast+
  have rng: "\<And>j k. j < length (locs w) \<Longrightarrow> k \<in> set (group_index w ! j ! i) \<Longrightarrow>
      k < length (loc_x (locs w ! j)) \<and> k < length (loc_y (locs w ! j))
           \<and> k < length (loc_z (locs w ! j))"
    using sg by simp
  show ?thesis
  proof (intro conjI allI impI)
    show "length (locs w') = length (locs w)" by (simp add: w')
  next
    fix j k assume j: "j < length (locs w)" and k: "k < length (loc_x (locs w ! j))"
    have "loc_x (locs w' ! j) = subtract_at (loc_x (locs w ! j)) (group_index w ! j ! i) (np_mean ox)"
      using j by (simp add: w' subtract_group_def)
    then show "loc_x (locs w' ! j) ! k =
             (if k \<in> set (group_index w ! j ! i)
              then loc_x (locs w ! j) ! k
                 - np_mean (concat (map (\<lambda>j. map (\<lambda>k. loc_x (locs w ! j) ! k)
                                             (group_index w ! j ! i)) [0..<length (locs w)]))
              else loc_x (locs w ! j) ! k)"
      using subtract_at_nth [OF k, of "group_index w ! j ! i" "np_mean ox"] rng [OF j]
      unfolding ox by auto
  next
    fix j k assume j: "j < length (locs w)" and k: "k < length (loc_y (locs w ! j))"
    have "loc_y (locs w' ! j) = subtract_at (loc_y (locs w ! j)) (group_index w ! j ! i) (np_mean oy)"
      using j by (simp add: w' subtract_group_def)
    then show "loc_y (locs w' ! j) ! k =
             (if k \<in> set (group_index w ! j ! i)
              then loc_y (locs w ! j) ! k
                 - np_mean (concat (map (\<lambda>j. map (\<lambda>k. loc_y (locs w ! j) ! k)
                                             (group_index w ! j ! i)) [0..<length (locs w)]))
              else loc_y (locs w ! j) ! k)"
      using subtract_at_nth [OF k, of "group_index w ! j ! i" "np_mean oy"] rng [OF j]
      unfolding oy by auto
  next
    fix j k assume j: "j < length (locs w)" and k: "k < length (loc_z (locs w ! j))"
    have "loc_z (locs w' ! j) = subtract_at (loc_z (locs w ! j)) (group_index w ! j ! i) (np_mean oz)"
      using j by (simp add: w' subtract_group_def)
    then show "loc_z (locs w' ! j) ! k =
             (if k \<in> set (group_index w ! j ! i)
              then loc_z (locs w ! j) ! k
                 - np_mean (concat (map (\<lambda>j. map (\<lambda>k. loc_z (locs w ! j) ! k)
                                             (group_index w ! j ! i)) [0..<length (locs w)]))
              else loc_z (locs w ! j) ! k)"
      using subtract_at_nth [OF k, of "group_index w ! j ! i" "np_mean oz"] rng [OF j]
      unfolding oz by auto
  qed
qed

lemma upt2: "[0..<2] = [0, 1]" by (simp add: upt_rec)

text \<open>
  C6 as stated fails: with the second channel disabled, the centroid over the enabled
  channel alone is 0, and the enabled channel is nevertheless moved by the centroid over
  both channels.
\<close>

theorem com_group_enabled_counterexample:
  "com_group com_example 0
     = Inr (com_example\<lparr>locs := [\<lparr>loc_x = [- 1], loc_y = [- 2], loc_z = [- 3]\<rparr>,
                                \<lparr>loc_x = [1], loc_y = [2], loc_z = [3]\<rparr>]\<rparr>)
   \<and> checks com_example = [True, False]
   \<and> enabled_centroid_x com_example 0 = 0
   \<and> subtract_at (loc_x (locs com_example ! 0)) (group_index com_example ! 0 ! 0)
        (enabled_centroid_x com_example 0) \<noteq> [- 1]"
  by (simp add: com_group_def com_example_def group_rows_def take_xyz_def np_take_def
      np_mean_def subtract_group_def subtract_at_def enabled_centroid_x_def upt2 Let_def)

theorem com_group_all_channels_witness:
  "com_group com_example 0
     = Inr (com_example\<lparr>locs := [\<lparr>loc_x = [- 1], loc_y = [- 2], loc_z = [- 3]\<rparr>,
                                \<lparr>loc_x = [1], loc_y = [2], loc_z = [3]\<rparr>]\<rparr>)
   \<and> loc_x (locs com_example ! 1) ! 0
       - np_mean (concat (map (\<lambda>j. map (\<lambda>k. loc_x (locs com_example ! j) ! k)
                                   (group_index com_example ! j ! 0))
                            [0..<length (locs com_example)])) = 1"
proof -
  have c: "com_group com_example 0
     = Inr (com_example\<lparr>locs := [\<lparr>loc_x = [- 1], loc_y = [- 2], loc_z = [- 3]\<rparr>,
                                \<lparr>loc_x = [1], loc_y = [2], loc_z = [3]\<rparr>]\<rparr>)"
    by (simp add: com_group_def com_example_def group_rows_def take_xyz_def np_take_def
      np_mean_def subtract_group_def subtract_at_def upt2 Let_def)
  have j: "1 < length (locs com_example)" and k: "0 < length (loc_x (locs com_example ! 1))"
    and m: "0 \<in> set (group_index com_example ! 1 ! 0)"
    by (simp_all add: com_example_def)
  from com_group_all_channels [OF c] j k
  have "loc_x (locs (com_example\<lparr>locs := [\<lparr>loc_x = [- 1], loc_y = [- 2], loc_z = [- 3]\<rparr>,
                                \<lparr>loc_x = [1], loc_y = [2], loc_z = [3]\<rparr>]\<rparr>) ! 1) ! 0 =
             (if 0 \<in> set (group_index com_example ! 1 ! 0)
              then loc_x (locs com_example ! 1) ! 0
                 - np_mean (concat (map (\<lambda>j. map (\<lambda>k. loc_x (locs com_example ! j) ! k)
                                             (group_index com_example ! j ! 0))
                                      [0..<length (locs com_example)]))
              else loc_x (locs com_example ! 1) ! 0)"
    by blast
  with m have "loc_x (locs com_example ! 1) ! 0
       - np_mean (concat (map (\<lambda>j. map (\<lambda>k. loc_x (locs com_example ! j) ! k)
                                   (group_index com_example ! j ! 0))
                            [0..<length (locs com_example)])) = 1"
    by simp
  with c show ?thesis by simp
qed

subsection \<open>Bounding radius\<close>

lemma rms_radial:
  "rms (map2 (\<lambda>x y. sqrt (x\<^sup>2 + y\<^sup>2)) xs ys) = sqrt (np_mean (map2 (\<lambda>x y. x\<^sup>2 + y\<^sup>2) xs ys))"
proof -
  have e: "map (\<lambda>v. v\<^sup>2) (map2 (\<lambda>x y. sqrt (x\<^sup>2 + y\<^sup>2)) xs ys) = map2 (\<lambda>x y. x\<^sup>2 + y\<^sup>2) xs ys"
    by (rule nth_equalityI) simp_all
  show ?thesis unfolding rms_def e by (rule refl)
qed

lemma Max_insert_max:
  fixes S :: "real set"
  assumes "finite S"
  shows "Max (insert (max u v) S) = Max (insert v (insert u S))"
proof (cases "S = {}")
  case True
  then show ?thesis by (simp add: max.commute)
next
  case False
  then show ?thesis using assms by (simp add: max.assoc max.commute max.left_commute)
qed

lemma r_values_Max:
  fixes F G :: "channel \<Rightarrow> real"
  assumes F: "\<And>ch. 3 * sqrt (np_mean (map2 (\<lambda>x y. x\<^sup>2 + y\<^sup>2) (loc_x ch) (loc_y ch))) = F ch"
    and G: "\<And>ch. 5 * sqrt (np_mean (map (\<lambda>z. z\<^sup>2) (loc_z ch))) = G ch"
    and "r_values chs (rv, rzv) = Inr (a, b)"
  shows "a = Max (insert rv (F ` set chs)) \<and> b = Max (insert rzv (G ` set chs))"
  using assms(3)
proof (induction chs arbitrary: rv rzv)
  case Nil
  then show ?case by simp
next
  case (Cons ch chs)
  from Cons.prems have rec: "r_values chs (max (F ch) rv, max (G ch) rzv) = Inr (a, b)"
    unfolding r_values.simps F G by (simp split: if_splits)
  have "Max (insert (max (F ch) rv) (F ` set chs)) = Max (insert rv (insert (F ch) (F ` set chs)))"
    by (rule Max_insert_max) simp
  moreover have "Max (insert (max (G ch) rzv) (G ` set chs))
      = Max (insert rzv (insert (G ch) (G ` set chs)))"
    by (rule Max_insert_max) simp
  ultimately show ?case
    using Cons.IH [OF rec] by simp
qed

lemma rms_nonneg: "0 \<le> rms vs"
  unfolding rms_def np_mean_def
  by (intro real_sqrt_ge_zero divide_nonneg_nonneg sum_list_nonneg) auto

lemma Max_insert_zero:
  fixes S :: "real set"
  assumes "finite S" "S \<noteq> {}" "\<forall>v\<in>S. 0 \<le> v"
  shows "Max (insert 0 S) = Max S"
proof -
  have "0 \<le> Max S" using assms by (meson Max_in)
  then show ?thesis using assms by (simp add: max_def)
qed

text \<open>
  C7. After recentring (with at least one channel) the bounding state is: \<open>r\<close> the
  maximum over the channels of three times the root mean square of
  \<open>sqrt (x^2 + y^2)\<close> over the channel's points, \<open>r_z\<close> the maximum over the
  channels of five times the root mean square of \<open>z\<close>, and
  \<open>t_min = - r\<close>, \<open>t_max = r\<close>, \<open>z_min = - r_z\<close>, \<open>z_max = r_z\<close>.
\<close>

theorem centerofmass_bounds:
  assumes "centerofmass w = Inr w'" and "locs w' \<noteq> []"
  shows "r w' = Max ((\<lambda>ch. 3 * rms (map2 (\<lambda>x y. sqrt (x\<^sup>2 + y\<^sup>2)) (loc_x ch) (loc_y ch)))
                      ` set (locs w'))
       \<and> r_z w' = Max ((\<lambda>ch. 5 * rms (loc_z ch)) ` set (locs w'))
       \<and> t_min w' = - r w' \<and> t_max w' = r w' \<and> z_min w' = - r_z w' \<and> z_max w' = r_z w'"
proof -
  from assms(1) obtain w1 rv rzv where
    rv: "r_values (locs w1) (0, 0) = Inr (rv, rzv)"
    and w': "w' = w1\<lparr>r := rv, r_z := rzv, t_min := - rv, t_max := rv,
                  z_min := - rzv, z_max := rzv, oversampling := 5\<rparr>"
    by (auto simp: centerofmass_def split: sum.splits)
  have l: "locs w' = locs w1" by (simp add: w')
  with assms(2) have ne: "set (locs w1) \<noteq> {}" by simp
  define F where "F = (\<lambda>ch::channel. 3 * rms (map2 (\<lambda>x y. sqrt (x\<^sup>2 + y\<^sup>2)) (loc_x ch) (loc_y ch)))"
  define G where "G = (\<lambda>ch::channel. 5 * rms (loc_z ch))"
  have FG: "rv = Max (insert 0 (F ` set (locs w1))) \<and> rzv = Max (insert 0 (G ` set (locs w1)))"
    by (rule r_values_Max [OF _ _ rv]) (simp_all add: F_def G_def rms_radial, simp add: rms_def)
  have "Max (insert 0 (F ` set (locs w1))) = Max (F ` set (locs w1))"
    using ne by (intro Max_insert_zero) (auto simp: F_def rms_nonneg)
  moreover have "Max (insert 0 (G ` set (locs w1))) = Max (G ` set (locs w1))"
    using ne by (intro Max_insert_zero) (auto simp: G_def rms_nonneg)
  ultimately have "rv = Max (F ` set (locs w1))" "rzv = Max (G ` set (locs w1))"
    using FG by simp_all
  then have "rv = Max ((\<lambda>ch. 3 * rms (map2 (\<lambda>x y. sqrt (x\<^sup>2 + y\<^sup>2)) (loc_x ch) (loc_y ch)))
                      ` set (locs w1))"
    and "rzv = Max ((\<lambda>ch. 5 * rms (loc_z ch)) ` set (locs w1))"
    unfolding F_def G_def by blast+
  then show ?thesis by (simp add: w')
qed

lemma upt1: "[0..<1] = [0]" by (simp add: upt_rec)

theorem centerofmass_bounds_witness:
  "centerofmass bounds_example
     = Inr (bounds_example\<lparr>r := 3, r_z := 5, t_min := - 3, t_max := 3,
                            z_min := - 5, z_max := 5, oversampling := 5\<rparr>)
   \<and> locs bounds_example \<noteq> []
   \<and> Max ((\<lambda>ch. 3 * rms (map2 (\<lambda>x y. sqrt (x\<^sup>2 + y\<^sup>2)) (loc_x ch) (loc_y ch)))
           ` set (locs bounds_example)) = 3
   \<and> Max ((\<lambda>ch. 5 * rms (loc_z ch)) ` set (locs bounds_example)) = 5"
proof -
  have c: "centerofmass bounds_example
     = Inr (bounds_example\<lparr>r := 3, r_z := 5, t_min := - 3, t_max := 3,
                            z_min := - 5, z_max := 5, oversampling := 5\<rparr>)"
    by (simp add: centerofmass_def com_group_def bounds_example_def group_rows_def
        take_xyz_def np_take_def np_mean_def subtract_group_def subtract_at_def upt1 Let_def)
  have n: "locs (bounds_example\<lparr>r := 3, r_z := 5, t_min := - 3, t_max := 3,
                            z_min := - 5, z_max := 5, oversampling := 5\<rparr>) \<noteq> []"
    by (simp add: bounds_example_def)
  from centerofmass_bounds [OF c n] c n show ?thesis by simp
qed

end
